theory Spec2Isabelle
  imports Complex_Main "HOL-Library.Multiset" "HOL-Library.List_Lexorder" "HOL-Library.Char_ord"
begin

section \<open>The aggregation pipeline of scripts/dashboard.py\<close>

text \<open>
  The function \<^verbatim>\<open>prepare_dashboard_data\<close> (dashboard.py, lines 37-124) reads eight
  pandas frames from the enclosing module and builds seven reports with \<^verbatim>\<open>merge\<close>,
  \<^verbatim>\<open>groupby\<close>, \<^verbatim>\<open>agg\<close>, \<^verbatim>\<open>sort_values\<close> and \<^verbatim>\<open>head\<close>. A frame is modelled as the
  list of its rows, a row as a record of the columns the function reads. Prices, sums, means
  and rates are exact rationals: the rounding of float64 is not modelled. Identifier and
  label columns are strings, ordered as Python orders them (by code point, then length);
  \<^verbatim>\<open>order_id\<close> and \<^verbatim>\<open>mql_id\<close> are numbers, only ever compared for equality. Columns are
  typed without missing values, \<^verbatim>\<open>won_date\<close> apart. An exception is a value: a part of
  the function that can raise returns the error or its result.
\<close>

subsection \<open>Input frames\<close>

record order_item =
  oi_order_id :: nat
  oi_product_id :: string
  oi_seller_id :: string
  oi_price :: rat

record timestamp =
  ts_year :: nat
  ts_month :: nat
  ts_day :: nat
  ts_seconds :: nat

datatype delay_status = Early | On_Time | Late

record order_row =
  ord_order_id :: nat
  ord_customer_id :: string
  ord_purchase_timestamp :: timestamp
  ord_delivery_delay :: int
  ord_delay_status :: delay_status

record customer =
  cust_customer_id :: string
  cust_customer_state :: string

record product =
  prod_product_id :: string
  prod_category_name :: string

record category_translation =
  tr_category_name :: string
  tr_category_name_english :: string

record order_review =
  rv_order_id :: nat
  rv_review_score :: nat

record closed_lead =
  cl_mql_id :: nat
  cl_business_segment :: string
  cl_won_date :: "timestamp option"

text \<open>
  The function reads one column of \<^verbatim>\<open>qualified_leads_clean\<close>, \<^verbatim>\<open>mql_id\<close>; the frame's
  other columns matter by their names only, because \<^verbatim>\<open>merge\<close> renames a column that
  both frames carry. The frame is therefore its \<^verbatim>\<open>mql_id\<close> column and the names of the
  columns beside it.
\<close>

record qualified_leads =
  ql_other_columns :: "string list"
  ql_mql_id :: "nat list"

subsection \<open>Reports\<close>

text \<open>
  The three revenue reports have the same shape; \<open>group_key\<close> is the column grouped on
  (\<^verbatim>\<open>product_category_name_english\<close>, \<^verbatim>\<open>customer_state\<close> or \<^verbatim>\<open>seller_id\<close>).
\<close>

record revenue_row =
  group_key :: string
  total_revenue :: rat
  order_count :: nat

record delivery_row =
  delivery_delay :: int
  delay_status :: delay_status

record 'm satisfaction_row =
  order_month :: 'm
  review_mean :: rat
  review_count :: nat

record lead_metrics =
  total_qualified_leads :: nat
  total_closed_leads :: nat
  conversion_rate :: rat

text \<open>A float64 cell that a division of two counts can produce.\<close>

datatype pd_float = Num rat | PosInf | NaN

record segment_row =
  business_segment :: string
  total_leads :: nat
  converted_leads :: nat
  seg_conversion_rate :: pd_float

text \<open>
  The exceptions the function can raise: KeyError for a column that is not in the frame,
  TypeError for an operation the column types do not allow, ZeroDivisionError for Python's
  \<^verbatim>\<open>/\<close> on a zero divisor.
\<close>

datatype py_error = KeyError string | TypeError | ZeroDivisionError

subsection \<open>The pandas operations\<close>

text \<open>
  \<^verbatim>\<open>left.merge(right, on=k)\<close>, an inner join: one row for every pair of a left and a right
  row with equal keys. The rows are listed in the order of the left frame; the reports
  only sum and count them.
\<close>

definition merge_inner :: "('l \<Rightarrow> 'k) \<Rightarrow> ('r \<Rightarrow> 'k) \<Rightarrow> 'l list \<Rightarrow> 'r list \<Rightarrow> ('l \<times> 'r) list" where
  "merge_inner kl kr ls rs =
     concat (map (\<lambda>l. map (Pair l) (filter (\<lambda>r. kr r = kl l) rs)) ls)"

text \<open>
  \<^verbatim>\<open>left.merge(right, on=k, how='left')\<close>: a left row without a partner is kept once, its
  right-hand columns missing.
\<close>

definition merge_left :: "('l \<Rightarrow> 'k) \<Rightarrow> ('r \<Rightarrow> 'k) \<Rightarrow> 'l list \<Rightarrow> 'r list \<Rightarrow> ('l \<times> 'r option) list" where
  "merge_left kl kr ls rs =
     concat (map (\<lambda>l. case filter (\<lambda>r. kr r = kl l) rs of
                          [] \<Rightarrow> [(l, None)]
                        | ms \<Rightarrow> map (\<lambda>r. (l, Some r)) ms) ls)"

text \<open>
  \<^verbatim>\<open>groupby(key)\<close> with its defaults \<^verbatim>\<open>sort=True\<close> and \<^verbatim>\<open>dropna=True\<close>: one group per
  distinct key, the groups in ascending key order. \<open>groupby_dropna\<close> is the same on a key
  column with missing values, whose rows belong to no group.
\<close>

definition group_keys :: "('r \<Rightarrow> 'k::linorder) \<Rightarrow> 'r list \<Rightarrow> 'k list" where
  "group_keys key rows = sort (remdups (map key rows))"

definition groupby :: "('r \<Rightarrow> 'k::linorder) \<Rightarrow> 'r list \<Rightarrow> ('k \<times> 'r list) list" where
  "groupby key rows = map (\<lambda>k. (k, filter (\<lambda>r. key r = k) rows)) (group_keys key rows)"

definition groupby_dropna :: "('r \<Rightarrow> 'k::linorder option) \<Rightarrow> 'r list \<Rightarrow> ('k \<times> 'r list) list" where
  "groupby_dropna key rows =
     groupby (\<lambda>r. the (key r)) (filter (\<lambda>r. key r \<noteq> None) rows)"

text \<open>
  \<^verbatim>\<open>.agg(total_revenue=('price', 'sum'), order_count=('order_id', 'count'))\<close> followed by
  \<^verbatim>\<open>reset_index()\<close>: \<^verbatim>\<open>count\<close> counts the cells of the group that are not missing, which
  is every row of the group.
\<close>

definition agg_revenue :: "('r \<Rightarrow> rat) \<Rightarrow> (string \<times> 'r list) list \<Rightarrow> revenue_row list" where
  "agg_revenue price groups =
     map (\<lambda>(k, g). \<lparr>group_key = k, total_revenue = sum_list (map price g),
                     order_count = length g\<rparr>) groups"

text \<open>
  \<^verbatim>\<open>sort_values('total_revenue', ascending=False)\<close>. pandas reverses the frame, sorts it
  ascending and reverses the result. Its default sorting kernel (quicksort) promises no
  order among rows of equal revenue. \<open>sort_values_desc\<close> is the sort with a stable kernel,
  one of the orders the code may produce; it stands in the reports below, and every
  statement made of them holds whatever the order of tied rows. A statement about tied
  rows is made of \<open>revenue_by_seller_with\<close>, where the kernel is left open.
\<close>

definition sort_values_desc :: "('r \<Rightarrow> 'k::linorder) \<Rightarrow> 'r list \<Rightarrow> 'r list" where
  "sort_values_desc f rows = rev (sort_key f (rev rows))"

definition head :: "nat \<Rightarrow> 'r list \<Rightarrow> 'r list" where
  "head n rows = take n rows"

subsection \<open>Revenue reports (lines 44-73)\<close>

definition category_join ::
  "order_item list \<Rightarrow> product list \<Rightarrow> category_translation list
     \<Rightarrow> ((order_item \<times> product) \<times> category_translation) list" where
  "category_join items products translations =
     merge_inner (\<lambda>ip. prod_category_name (snd ip)) tr_category_name
       (merge_inner oi_product_id prod_product_id items products) translations"

definition revenue_by_category ::
  "order_item list \<Rightarrow> product list \<Rightarrow> category_translation list \<Rightarrow> revenue_row list" where
  "revenue_by_category items products translations =
     sort_values_desc total_revenue
       (agg_revenue (\<lambda>j. oi_price (fst (fst j)))
          (groupby (\<lambda>j. tr_category_name_english (snd j))
             (category_join items products translations)))"

text \<open>The projection \<^verbatim>\<open>order_items_clean[['order_id', 'price']]\<close> of line 56.\<close>

definition project_order_id_price :: "order_item list \<Rightarrow> (nat \<times> rat) list" where
  "project_order_id_price items = map (\<lambda>i. (oi_order_id i, oi_price i)) items"

definition region_join ::
  "order_item list \<Rightarrow> order_row list \<Rightarrow> customer list
     \<Rightarrow> (((nat \<times> rat) \<times> (nat \<times> string)) \<times> (string \<times> string)) list" where
  "region_join items orders customers =
     merge_inner (\<lambda>io. snd (snd io)) fst
       (merge_inner fst fst (project_order_id_price items)
          (map (\<lambda>r. (ord_order_id r, ord_customer_id r)) orders))
       (map (\<lambda>c. (cust_customer_id c, cust_customer_state c)) customers)"

definition revenue_by_region ::
  "order_item list \<Rightarrow> order_row list \<Rightarrow> customer list \<Rightarrow> revenue_row list" where
  "revenue_by_region items orders customers =
     sort_values_desc total_revenue
       (agg_revenue (\<lambda>j. snd (fst (fst j)))
          (groupby (\<lambda>j. snd (snd j)) (region_join items orders customers)))"

definition seller_totals :: "order_item list \<Rightarrow> revenue_row list" where
  "seller_totals items = agg_revenue oi_price (groupby oi_seller_id items)"

definition revenue_by_seller :: "order_item list \<Rightarrow> revenue_row list" where
  "revenue_by_seller items = head 20 (sort_values_desc total_revenue (seller_totals items))"

text \<open>
  Lines 66-73 with the kernel of \<^verbatim>\<open>sort_values\<close> left open: a kernel is any function that
  returns the rows it is given, in descending order of \<^verbatim>\<open>total_revenue\<close>.
\<close>

definition sorts_descending :: "(revenue_row list \<Rightarrow> revenue_row list) \<Rightarrow> bool" where
  "sorts_descending srt \<longleftrightarrow>
     (\<forall>rows. mset (srt rows) = mset rows
        \<and> sorted_wrt (\<lambda>a b. total_revenue b \<le> total_revenue a) (srt rows))"

definition revenue_by_seller_with ::
  "(revenue_row list \<Rightarrow> revenue_row list) \<Rightarrow> order_item list \<Rightarrow> revenue_row list" where
  "revenue_by_seller_with srt items = head 20 (srt (seller_totals items))"

subsection \<open>Delivery metrics (line 76)\<close>

definition delivery_metrics :: "order_row list \<Rightarrow> delivery_row list" where
  "delivery_metrics orders =
     map (\<lambda>r. \<lparr>delivery_delay = ord_delivery_delay r, delay_status = ord_delay_status r\<rparr>) orders"

subsection \<open>Satisfaction over time (lines 79-90)\<close>

text \<open>
  \<^verbatim>\<open>dt.to_period('M')\<close>: pandas holds a monthly period as the number of months since
  January 1970, and orders periods by that number.
\<close>

definition to_period_M :: "timestamp \<Rightarrow> int" where
  "to_period_M t = (int (ts_year t) - 1970) * 12 + (int (ts_month t) - 1)"

definition digit_char :: "nat \<Rightarrow> char" where
  "digit_char d = ''0123456789'' ! (d mod 10)"

text \<open>
  \<^verbatim>\<open>astype(str)\<close> on a monthly period prints \<^verbatim>\<open>%Y-%m\<close>, as in \<^verbatim>\<open>2017-03\<close>. The year has
  four digits for every period a pandas timestamp can give (years 1677 to 2262).
\<close>

definition period_str :: "int \<Rightarrow> string" where
  "period_str p =
     (let y = nat (1970 + p div 12); m = nat (p mod 12 + 1)
      in [digit_char (y div 1000), digit_char (y div 100), digit_char (y div 10), digit_char y,
          CHR ''-'', digit_char (m div 10), digit_char m])"

definition satisfaction_data ::
  "order_review list \<Rightarrow> order_row list \<Rightarrow> (order_review \<times> (nat \<times> timestamp)) list" where
  "satisfaction_data reviews orders =
     merge_inner rv_order_id fst reviews
       (map (\<lambda>r. (ord_order_id r, ord_purchase_timestamp r)) orders)"

definition order_month_of :: "order_review \<times> (nat \<times> timestamp) \<Rightarrow> int" where
  "order_month_of j = to_period_M (snd (snd j))"

text \<open>\<^verbatim>\<open>['review_score'].agg(['mean', 'count'])\<close> and \<^verbatim>\<open>reset_index()\<close>.\<close>

definition agg_mean_count ::
  "('r \<Rightarrow> nat) \<Rightarrow> ('k \<times> 'r list) list \<Rightarrow> 'k satisfaction_row list" where
  "agg_mean_count score groups =
     map (\<lambda>(k, g). \<lparr>order_month = k,
                     review_mean = of_nat (sum_list (map score g)) / of_nat (length g),
                     review_count = length g\<rparr>) groups"

definition satisfaction_by_period ::
  "order_review list \<Rightarrow> order_row list \<Rightarrow> int satisfaction_row list" where
  "satisfaction_by_period reviews orders =
     agg_mean_count (\<lambda>j. rv_review_score (fst j))
       (groupby order_month_of (satisfaction_data reviews orders))"

definition satisfaction_over_time ::
  "order_review list \<Rightarrow> order_row list \<Rightarrow> string satisfaction_row list" where
  "satisfaction_over_time reviews orders =
     map (\<lambda>r. \<lparr>order_month = period_str (order_month r), review_mean = review_mean r,
                review_count = review_count r\<rparr>)
       (satisfaction_by_period reviews orders)"

subsection \<open>Lead conversion (lines 93-114)\<close>

text \<open>Python's \<^verbatim>\<open>/\<close> on two lengths: it raises on a zero divisor.\<close>

definition py_truediv :: "nat \<Rightarrow> nat \<Rightarrow> py_error + rat" where
  "py_truediv a b = (if b = 0 then Inl ZeroDivisionError else Inr (of_nat a / of_nat b))"

text \<open>
  The dictionary of lines 93-97, evaluated as Python does: the conditional expression of
  line 96 divides only when its condition holds.
\<close>

definition lead_metrics_eval :: "qualified_leads \<Rightarrow> closed_lead list \<Rightarrow> py_error + lead_metrics" where
  "lead_metrics_eval qualified leads_closed =
     (if length (ql_mql_id qualified) > 0
      then (case py_truediv (length leads_closed) (length (ql_mql_id qualified)) of
              Inl e \<Rightarrow> Inl e
            | Inr x \<Rightarrow>
                Inr \<lparr>total_qualified_leads = length (ql_mql_id qualified),
                     total_closed_leads = length leads_closed,
                     conversion_rate = x * 100\<rparr>)
      else Inr \<lparr>total_qualified_leads = length (ql_mql_id qualified),
                total_closed_leads = length leads_closed,
                conversion_rate = 0\<rparr>)"

text \<open>The dictionary that this evaluation yields (lemma \<open>lead_metrics_eval_value\<close>).\<close>

definition lead_metrics_of :: "qualified_leads \<Rightarrow> closed_lead list \<Rightarrow> lead_metrics" where
  "lead_metrics_of qualified leads_closed =
     \<lparr>total_qualified_leads = length (ql_mql_id qualified),
      total_closed_leads = length leads_closed,
      conversion_rate =
        (if length (ql_mql_id qualified) > 0
         then of_nat (length leads_closed) / of_nat (length (ql_mql_id qualified)) * 100
         else 0)\<rparr>"

text \<open>
  Division and multiplication of float64 columns, and \<^verbatim>\<open>fillna(0)\<close>: a count divided by
  zero is infinite, zero divided by zero is NaN, and only NaN is a missing value. None of
  them raises.
\<close>

definition pd_truediv :: "nat \<Rightarrow> nat \<Rightarrow> pd_float" where
  "pd_truediv a b =
     (if b = 0 then (if a = 0 then NaN else PosInf) else Num (of_nat a / of_nat b))"

fun pd_times :: "pd_float \<Rightarrow> rat \<Rightarrow> pd_float" where
  "pd_times (Num x) c = Num (x * c)"
| "pd_times PosInf c = PosInf"
| "pd_times NaN c = NaN"

fun fillna :: "rat \<Rightarrow> pd_float \<Rightarrow> pd_float" where
  "fillna v NaN = Num v"
| "fillna v x = x"

definition lead_join :: "nat list \<Rightarrow> closed_lead list \<Rightarrow> (nat \<times> closed_lead option) list" where
  "lead_join mql_ids leads_closed = merge_left id cl_mql_id mql_ids leads_closed"

definition joined_business_segment :: "nat \<times> closed_lead option \<Rightarrow> string option" where
  "joined_business_segment j = map_option cl_business_segment (snd j)"

definition joined_won_date :: "nat \<times> closed_lead option \<Rightarrow> timestamp option" where
  "joined_won_date j = (case snd j of None \<Rightarrow> None | Some c \<Rightarrow> cl_won_date c)"

text \<open>
  Lines 100-110, the frame of \<^verbatim>\<open>business_segment\<close>, \<^verbatim>\<open>total_leads\<close> and
  \<^verbatim>\<open>converted_leads\<close>: \<^verbatim>\<open>total_leads=('mql_id', 'count')\<close> counts the rows of the group,
  \<^verbatim>\<open>converted_leads=('won_date', lambda x: x.notna().sum())\<close> those with a \<^verbatim>\<open>won_date\<close>.
\<close>

definition segment_counts :: "nat list \<Rightarrow> closed_lead list \<Rightarrow> (string \<times> nat \<times> nat) list" where
  "segment_counts mql_ids leads_closed =
     map (\<lambda>(k, g). (k, length g, length (filter (\<lambda>j. joined_won_date j \<noteq> None) g)))
       (groupby_dropna joined_business_segment (lead_join mql_ids leads_closed))"

text \<open>
  Lines 111-114 add the \<^verbatim>\<open>conversion_rate\<close> column. When the frame has no row, the
  lambda was never called and pandas leaves \<^verbatim>\<open>converted_leads\<close> with the type of
  \<^verbatim>\<open>won_date\<close>, a datetime: dividing it by the integer column \<^verbatim>\<open>total_leads\<close> raises
  TypeError.
\<close>

definition with_conversion_rate :: "(string \<times> nat \<times> nat) list \<Rightarrow> py_error + segment_row list" where
  "with_conversion_rate frame =
     (if frame = [] then Inl TypeError
      else Inr (map (\<lambda>(k, total, converted).
                  \<lparr>business_segment = k, total_leads = total, converted_leads = converted,
                   seg_conversion_rate = fillna 0 (pd_times (pd_truediv converted total) 100)\<rparr>)
                frame))"

definition segment_rows :: "nat list \<Rightarrow> closed_lead list \<Rightarrow> py_error + segment_row list" where
  "segment_rows mql_ids leads_closed =
     with_conversion_rate (segment_counts mql_ids leads_closed)"

text \<open>
  The right frame of the merge is \<^verbatim>\<open>closed_leads_clean[['mql_id', 'business_segment',
  'won_date']]\<close>. A column of that name in the left frame too comes out of \<^verbatim>\<open>merge\<close> as
  \<^verbatim>\<open>business_segment_x\<close> and \<^verbatim>\<open>business_segment_y\<close> (\<^verbatim>\<open>won_date_x\<close>, \<^verbatim>\<open>won_date_y\<close>),
  and \<^verbatim>\<open>groupby('business_segment')\<close> (the aggregation of \<^verbatim>\<open>won_date\<close>) raises KeyError.
\<close>

definition lead_conversion_by_segment ::
  "qualified_leads \<Rightarrow> closed_lead list \<Rightarrow> py_error + segment_row list" where
  "lead_conversion_by_segment qualified leads_closed =
     (if ''business_segment'' \<in> set (ql_other_columns qualified)
      then Inl (KeyError ''business_segment'')
      else if ''won_date'' \<in> set (ql_other_columns qualified)
      then Inl (KeyError ''won_date'')
      else segment_rows (ql_mql_id qualified) leads_closed)"

subsection \<open>The whole function\<close>

record dashboard_inputs =
  order_items_clean :: "order_item list"
  products_clean :: "product list"
  product_cat_name_clean :: "category_translation list"
  orders_clean :: "order_row list"
  customers_clean :: "customer list"
  order_reviews_clean :: "order_review list"
  qualified_leads_clean :: qualified_leads
  closed_leads_clean :: "closed_lead list"

record dashboard_data =
  dd_revenue_by_category :: "revenue_row list"
  dd_revenue_by_region :: "revenue_row list"
  dd_revenue_by_seller :: "revenue_row list"
  dd_delivery_metrics :: "delivery_row list"
  dd_satisfaction_over_time :: "string satisfaction_row list"
  dd_lead_metrics :: lead_metrics
  dd_lead_conversion_by_segment :: "segment_row list"

text \<open>
  The statements of lines 44-90 raise nothing on frames of the types above; the lead
  metrics are computed before the conversion by segment, and the dictionary is returned
  only when neither has raised.
\<close>

definition prepare_dashboard_data :: "dashboard_inputs \<Rightarrow> py_error + dashboard_data" where
  "prepare_dashboard_data inp =
     (case lead_metrics_eval (qualified_leads_clean inp) (closed_leads_clean inp) of
        Inl e \<Rightarrow> Inl e
      | Inr metrics \<Rightarrow>
          (case lead_conversion_by_segment (qualified_leads_clean inp)
                  (closed_leads_clean inp) of
             Inl e \<Rightarrow> Inl e
           | Inr segments \<Rightarrow>
               Inr \<lparr>dd_revenue_by_category =
                      revenue_by_category (order_items_clean inp) (products_clean inp)
                        (product_cat_name_clean inp),
                    dd_revenue_by_region =
                      revenue_by_region (order_items_clean inp) (orders_clean inp)
                        (customers_clean inp),
                    dd_revenue_by_seller = revenue_by_seller (order_items_clean inp),
                    dd_delivery_metrics = delivery_metrics (orders_clean inp),
                    dd_satisfaction_over_time =
                      satisfaction_over_time (order_reviews_clean inp) (orders_clean inp),
                    dd_lead_metrics = metrics,
                    dd_lead_conversion_by_segment = segments\<rparr>))"

subsection \<open>Example frames\<close>

text \<open>
  Twenty-one sellers with one item of price 10 each: seller u comes first in the frame, the
  sellers a to t follow.
\<close>

definition tied_sellers_example :: "order_item list" where
  "tied_sellers_example =
     map (\<lambda>(n, s). \<lparr>oi_order_id = n, oi_product_id = ''p'', oi_seller_id = s, oi_price = 10\<rparr>)
       (zip [0..<21]
          [''u'', ''a'', ''b'', ''c'', ''d'', ''e'', ''f'', ''g'', ''h'', ''i'', ''j'', ''k'',
           ''l'', ''m'', ''n'', ''o'', ''p'', ''q'', ''r'', ''s'', ''t''])"

text \<open>
  Four reviews and four orders: orders 1 and 2 were bought in March 2017, order 3 in January
  2018, order 4 in December 2016; order 4 has no review and the review of order 9 no order.
\<close>

definition reviews_example :: "order_review list" where
  "reviews_example =
     [\<lparr>rv_order_id = 1, rv_review_score = 4\<rparr>, \<lparr>rv_order_id = 3, rv_review_score = 1\<rparr>,
      \<lparr>rv_order_id = 2, rv_review_score = 5\<rparr>, \<lparr>rv_order_id = 9, rv_review_score = 3\<rparr>]"

definition orders_example :: "order_row list" where
  "orders_example =
     [\<lparr>ord_order_id = 3, ord_customer_id = ''c3'',
       ord_purchase_timestamp = \<lparr>ts_year = 2018, ts_month = 1, ts_day = 5, ts_seconds = 0\<rparr>,
       ord_delivery_delay = 4, ord_delay_status = Late\<rparr>,
      \<lparr>ord_order_id = 1, ord_customer_id = ''c1'',
       ord_purchase_timestamp = \<lparr>ts_year = 2017, ts_month = 3, ts_day = 2, ts_seconds = 60\<rparr>,
       ord_delivery_delay = - 45, ord_delay_status = Early\<rparr>,
      \<lparr>ord_order_id = 2, ord_customer_id = ''c2'',
       ord_purchase_timestamp = \<lparr>ts_year = 2017, ts_month = 3, ts_day = 30, ts_seconds = 0\<rparr>,
       ord_delivery_delay = 0, ord_delay_status = On_Time\<rparr>,
      \<lparr>ord_order_id = 4, ord_customer_id = ''c1'',
       ord_purchase_timestamp = \<lparr>ts_year = 2016, ts_month = 12, ts_day = 24, ts_seconds = 0\<rparr>,
       ord_delivery_delay = 2, ord_delay_status = Late\<rparr>]"

text \<open>
  Four order items, two of order 1: order 7 is not in \<open>orders_example\<close> and product p3
  has a category without a translation.
\<close>

definition items_example :: "order_item list" where
  "items_example =
     [\<lparr>oi_order_id = 1, oi_product_id = ''p1'', oi_seller_id = ''s1'', oi_price = 10\<rparr>,
      \<lparr>oi_order_id = 1, oi_product_id = ''p2'', oi_seller_id = ''s2'', oi_price = 20\<rparr>,
      \<lparr>oi_order_id = 2, oi_product_id = ''p1'', oi_seller_id = ''s1'', oi_price = 5\<rparr>,
      \<lparr>oi_order_id = 7, oi_product_id = ''p3'', oi_seller_id = ''s1'', oi_price = 1\<rparr>]"





subsection \<open>Notions used to state the claims\<close>

text \<open>
  The position at which a seller first occurs in the order items, and the rule of claim C6
  in its own words: of two sellers with equal revenue, the report that keeps the one that
  occurs later keeps the one that occurs earlier too.
\<close>

definition first_occurrence :: "string \<Rightarrow> order_item list \<Rightarrow> nat" where
  "first_occurrence s items = length (takeWhile (\<lambda>i. oi_seller_id i \<noteq> s) items)"

definition ties_follow_input_order :: "revenue_row list \<Rightarrow> order_item list \<Rightarrow> bool" where
  "ties_follow_input_order report items \<longleftrightarrow>
     (\<forall>a \<in> set (seller_totals items). \<forall>b \<in> set (seller_totals items).
        total_revenue a = total_revenue b
        \<and> first_occurrence (group_key a) items < first_occurrence (group_key b) items
        \<and> b \<in> set report
        \<longrightarrow> a \<in> set report)"


text \<open>
  A pandas timestamp lies between the years 1677 and 2262 and has a month from 1 to 12.
\<close>

definition valid_timestamp :: "timestamp \<Rightarrow> bool" where
  "valid_timestamp t \<longleftrightarrow>
     1677 \<le> ts_year t \<and> ts_year t \<le> 2262 \<and> 1 \<le> ts_month t \<and> ts_month t \<le> 12"

text \<open>
  The calendar months of the joined review and order data: the purchase months of the orders
  that some review names.
\<close>

definition joined_months :: "order_review list \<Rightarrow> order_row list \<Rightarrow> int set" where
  "joined_months reviews orders =
     (\<lambda>r. to_period_M (ord_purchase_timestamp r)) `
       {r \<in> set orders. ord_order_id r \<in> rv_order_id ` set reviews}"

section \<open>Properties of the operations\<close>

subsection \<open>Sorting and truncation\<close>

lemma set_sort_values_desc: "set (sort_values_desc f rows) = set rows"
  by (simp add: sort_values_desc_def)

lemma length_sort_values_desc: "length (sort_values_desc f rows) = length rows"
  by (simp add: sort_values_desc_def)

lemma sorted_sort_values_desc:
  "sorted_wrt (\<lambda>a b. f b \<le> f a) (sort_values_desc f rows)"
proof -
  have "sorted (map f (sort_key f (rev rows)))"
    by (rule sorted_sort_key)
  then have "sorted_wrt (\<lambda>a b. f a \<le> f b) (sort_key f (rev rows))"
    by (simp add: sorted_map)
  then show ?thesis
    by (simp add: sort_values_desc_def sorted_wrt_rev)
qed

lemma sorted_wrt_head: "sorted_wrt P rows \<Longrightarrow> sorted_wrt P (head n rows)"
  by (simp add: head_def sorted_wrt_take)

lemma length_head: "length (head n rows) \<le> n"
  by (simp add: head_def)

lemma set_head: "set (head n rows) \<subseteq> set rows"
  by (simp add: head_def set_take_subset)

subsection \<open>Grouping\<close>

lemma set_group_keys: "set (group_keys key rows) = key ` set rows"
  by (simp add: group_keys_def)

lemma strict_sorted_group_keys: "sorted_wrt (<) (group_keys key rows)"
  by (simp add: group_keys_def strict_sorted_iff)

lemma group_keys_eq_sorted_list: "group_keys key rows = sorted_list_of_set (key ` set rows)"
  by (metis group_keys_def list.set_map sorted_list_of_set_sort_remdups)

lemma map_fst_groupby: "map fst (groupby key rows) = group_keys key rows"
  by (simp add: groupby_def comp_def)

lemma set_agg_revenue_groupby:
  "set (agg_revenue price (groupby key rows)) =
     (\<lambda>k. \<lparr>group_key = k,
             total_revenue = sum_list (map price (filter (\<lambda>r. key r = k) rows)),
             order_count = length (filter (\<lambda>r. key r = k) rows)\<rparr>) ` key ` set rows"
  by (simp add: agg_revenue_def groupby_def set_group_keys image_image)

lemma map_group_key_agg_revenue:
  "map group_key (agg_revenue price (groupby key rows)) = group_keys key rows"
  by (simp add: agg_revenue_def groupby_def comp_def)

lemma revenue_row_of_group:
  assumes "r \<in> set (agg_revenue price (groupby key rows))"
  shows "group_key r \<in> key ` set rows
       \<and> total_revenue r = sum_list (map price (filter (\<lambda>j. key j = group_key r) rows))
       \<and> order_count r = length (filter (\<lambda>j. key j = group_key r) rows)"
  using assms by (auto simp add: set_agg_revenue_groupby)

lemma mset_sort_values_desc: "mset (sort_values_desc f rows) = mset rows"
  by (simp add: sort_values_desc_def)

lemma distinct_map_sort_values_desc:
  "distinct (map g (sort_values_desc f rows)) = distinct (map g rows)"
proof -
  have "mset (map g (sort_values_desc f rows)) = mset (map g rows)"
    by (simp add: mset_sort_values_desc)
  then show ?thesis
    by (rule mset_eq_imp_distinct_iff)
qed

lemma distinct_group_keys: "distinct (group_keys key rows)"
  by (simp add: group_keys_def)

lemma project_order_id_price_zip:
  "project_order_id_price items = zip (map oi_order_id items) (map oi_price items)"
  by (induction items) (simp_all add: project_order_id_price_def)

subsection \<open>Lead conversion\<close>

lemma groupby_member:
  assumes "(k, g) \<in> set (groupby key rows)"
  shows "g = filter (\<lambda>r. key r = k) rows \<and> k \<in> key ` set rows \<and> g \<noteq> []"
proof -
  from assms have k: "k \<in> key ` set rows" and g: "g = filter (\<lambda>r. key r = k) rows"
    by (auto simp add: groupby_def set_group_keys)
  from k obtain r where "r \<in> set rows" "key r = k" by auto
  then have "r \<in> set g" using g by simp
  then have "g \<noteq> []" by auto
  with k g show ?thesis by simp
qed



lemma lead_metrics_eval_value:
  "lead_metrics_eval qualified leads_closed = Inr (lead_metrics_of qualified leads_closed)"
  by (simp add: lead_metrics_eval_def lead_metrics_of_def py_truediv_def)

lemma segment_rows_no_lead: "segment_rows [] leads_closed = Inl TypeError"
  by (simp add: segment_rows_def with_conversion_rate_def segment_counts_def
      groupby_dropna_def groupby_def group_keys_def lead_join_def merge_left_def)




subsection \<open>Reordering the rows of a grouped frame\<close>

lemma group_keys_mset_cong:
  assumes "mset xs = mset ys"
  shows "group_keys key xs = group_keys key ys"
proof -
  from assms have "set xs = set ys" by (rule mset_eq_setD)
  then show ?thesis by (simp add: group_keys_eq_sorted_list)
qed

lemma group_sum_mset_cong:
  assumes "mset xs = mset ys"
  shows "sum_list (map price (filter P xs)) = (sum_list (map price (filter P ys)) :: rat)"
proof -
  from assms have "mset (map price (filter P xs)) = mset (map price (filter P ys))"
    by simp
  then have "sum_mset (mset (map price (filter P xs))) = sum_mset (mset (map price (filter P ys)))"
    by (rule arg_cong)
  then show ?thesis by (simp only: sum_mset_sum_list)
qed

lemma group_length_mset_cong:
  assumes "mset xs = mset ys"
  shows "length (filter P xs) = length (filter P ys)"
proof -
  from assms have "mset (filter P xs) = mset (filter P ys)" by simp
  then show ?thesis by (rule mset_eq_length)
qed

lemma agg_revenue_groupby_mset_cong:
  assumes "mset xs = mset ys"
  shows "agg_revenue price (groupby key xs) = agg_revenue price (groupby key ys)"
  using group_keys_mset_cong [OF assms, of key]
  by (simp add: agg_revenue_def groupby_def group_sum_mset_cong [OF assms]
      group_length_mset_cong [OF assms])

subsection \<open>Month labels\<close>

lemma of_char_digit_table:
  "\<forall>k \<in> set [0..<10]. of_char (''0123456789'' ! k) = (48 + k :: nat)"
  by (simp add: upt_rec)

lemma of_char_digit_char: "of_char (digit_char d) = (48 + d mod 10 :: nat)"
proof -
  have "d mod 10 \<in> set [0..<10]" by simp
  with of_char_digit_table show ?thesis
    unfolding digit_char_def by blast
qed

lemma digit_char_less_iff: "digit_char a < digit_char b \<longleftrightarrow> a mod 10 < b mod 10"
  by (simp add: less_char_def of_char_digit_char)

lemma digit_char_eq_iff: "digit_char a = digit_char b \<longleftrightarrow> a mod 10 = b mod 10"
proof -
  have "digit_char a = digit_char b \<longleftrightarrow> (of_char (digit_char a) :: nat) = of_char (digit_char b)"
    by (simp only: of_char_eq_iff)
  then show ?thesis by (simp add: of_char_digit_char)
qed

lemma divmod_less_cases:
  fixes x y b :: nat
  assumes "x < y"
  shows "x div b < y div b \<or> x div b = y div b \<and> x mod b < y mod b"
proof (cases "x div b = y div b")
  case True
  have "b * (x div b) + x mod b < b * (y div b) + y mod b"
    using assms by (simp only: mult_div_mod_eq)
  then have "b * (y div b) + x mod b < b * (y div b) + y mod b"
    by (simp only: True)
  then have "x mod b < y mod b"
    by (simp only: nat_add_left_cancel_less)
  with True show ?thesis by simp
next
  case False
  moreover have "x div b \<le> y div b"
    using assms by (simp add: div_le_mono)
  ultimately show ?thesis by simp
qed

lemma two_digits_less:
  fixes m m' :: nat
  assumes "m < m'" and "m' < 100"
  shows "[digit_char (m div 10), digit_char m] < [digit_char (m' div 10), digit_char m']"
proof -
  have a: "m div 10 mod 10 = m div 10" "m' div 10 mod 10 = m' div 10"
    using assms by simp_all
  from divmod_less_cases [OF assms(1), of 10] show ?thesis
    by (auto simp add: digit_char_less_iff digit_char_eq_iff a)
qed

lemma low_digits_mod_100:
  fixes y :: nat
  shows "y mod 100 div 10 mod 10 = y div 10 mod 10" and "y mod 100 mod 10 = y mod 10"
proof -
  have "y mod (10 * 10) = 10 * (y div 10 mod 10) + y mod 10"
    by (rule mod_mult2_eq)
  then have "y mod 100 div 10 = y div 10 mod 10"
    by simp
  then show "y mod 100 div 10 mod 10 = y div 10 mod 10"
    by simp
  show "y mod 100 mod 10 = y mod 10"
    by (simp add: mod_mod_cancel)
qed

lemma four_digits_less:
  fixes y y' :: nat
  assumes "y < y'" and "y' < 10000"
  shows "[digit_char (y div 1000), digit_char (y div 100), digit_char (y div 10), digit_char y]
       < [digit_char (y' div 1000), digit_char (y' div 100), digit_char (y' div 10), digit_char y']"
proof -
  have hi: "[digit_char (y div 100 div 10), digit_char (y div 100)]
       < [digit_char (y' div 100 div 10), digit_char (y' div 100)]"
    if "y div 100 < y' div 100"
    using that assms(2) by (intro two_digits_less) simp_all
  have lo: "[digit_char (y mod 100 div 10), digit_char (y mod 100)]
       < [digit_char (y' mod 100 div 10), digit_char (y' mod 100)]"
    if "y mod 100 < y' mod 100"
    using that by (intro two_digits_less) simp_all
  have d: "y div 100 div 10 = y div 1000" "y' div 100 div 10 = y' div 1000"
    by (simp_all add: div_mult2_eq [symmetric])
  have e: "digit_char (y mod 100 div 10) = digit_char (y div 10)"
    "digit_char (y' mod 100 div 10) = digit_char (y' div 10)"
    "digit_char (y mod 100) = digit_char y" "digit_char (y' mod 100) = digit_char y'"
    by (simp_all only: digit_char_eq_iff low_digits_mod_100)
  from divmod_less_cases [OF assms(1), of 100] show ?thesis
  proof
    assume "y div 100 < y' div 100"
    from hi [OF this] show ?thesis
      unfolding d by auto
  next
    assume h: "y div 100 = y' div 100 \<and> y mod 100 < y' mod 100"
    then have "y div 1000 = y' div 1000" using d by simp
    moreover from h lo have "[digit_char (y div 10), digit_char y]
       < [digit_char (y' div 10), digit_char y']" unfolding e by simp
    ultimately show ?thesis using h by simp
  qed
qed

lemma year_month_label_less:
  fixes y y' m m' :: nat
  assumes "y' < 10000" "m' < 100" "y < y' \<or> y = y' \<and> m < m'"
  shows "[digit_char (y div 1000), digit_char (y div 100), digit_char (y div 10), digit_char y,
          CHR ''-'', digit_char (m div 10), digit_char m]
       < [digit_char (y' div 1000), digit_char (y' div 100), digit_char (y' div 10), digit_char y',
          CHR ''-'', digit_char (m' div 10), digit_char m']"
  using assms(3)
proof
  assume "y < y'"
  from four_digits_less [OF this assms(1)] show ?thesis by auto
next
  assume "y = y' \<and> m < m'"
  then show ?thesis using two_digits_less [of m m'] assms(2) by simp
qed

subsection \<open>Satisfaction over time\<close>

lemma int_divmod_less_cases:
  fixes p q :: int
  assumes "p < q"
  shows "p div 12 < q div 12 \<or> p div 12 = q div 12 \<and> p mod 12 < q mod 12"
proof (cases "p div 12 = q div 12")
  case True
  have "12 * (p div 12) + p mod 12 < 12 * (q div 12) + q mod 12"
    using assms by (simp only: mult_div_mod_eq)
  then have "p mod 12 < q mod 12"
    by (simp only: True add_less_cancel_left)
  with True show ?thesis by simp
next
  case False
  moreover have "p div 12 \<le> q div 12"
    using assms by (simp add: zdiv_mono1)
  ultimately show ?thesis by simp
qed

lemma period_str_less:
  assumes "- 3516 \<le> p" and "p < q" and "q \<le> 3515"
  shows "period_str p < period_str q"
proof -
  let ?y = "nat (1970 + p div 12)" and ?y' = "nat (1970 + q div 12)"
  let ?m = "nat (p mod 12 + 1)" and ?m' = "nat (q mod 12 + 1)"
  have p: "- 293 \<le> p div 12" using assms(1) by simp
  have q: "q div 12 \<le> 292" using assms(3) by simp
  have y': "?y' < 10000" using q by simp
  have m': "?m' < 100"
  proof -
    have "q mod 12 < 12" by simp
    then show ?thesis by simp
  qed
  have "?y < ?y' \<or> ?y = ?y' \<and> ?m < ?m'"
  proof -
    from int_divmod_less_cases [OF assms(2)] show ?thesis
    proof
      assume "p div 12 < q div 12"
      then have "?y < ?y'" using p by simp
      then show ?thesis by simp
    next
      assume h: "p div 12 = q div 12 \<and> p mod 12 < q mod 12"
      moreover have "0 \<le> p mod 12" by simp
      ultimately have "?m < ?m'" by simp
      with h show ?thesis by simp
    qed
  qed
  from year_month_label_less [OF y' m' this] show ?thesis
    by (simp add: period_str_def Let_def)
qed

lemma to_period_M_range:
  assumes "valid_timestamp t"
  shows "- 3516 \<le> to_period_M t \<and> to_period_M t \<le> 3515"
  using assms by (simp add: valid_timestamp_def to_period_M_def)

lemma set_merge_inner:
  "set (merge_inner kl kr ls rs) = {(l, r). l \<in> set ls \<and> r \<in> set rs \<and> kr r = kl l}"
  by (auto simp add: merge_inner_def)

lemma order_month_of_satisfaction_data:
  "order_month_of ` set (satisfaction_data reviews orders) = joined_months reviews orders"
proof -
  have "order_month_of ` set (satisfaction_data reviews orders) \<subseteq> joined_months reviews orders"
  proof
    fix k assume "k \<in> order_month_of ` set (satisfaction_data reviews orders)"
    then obtain od rv where od: "od \<in> set orders" and rv: "rv \<in> set reviews"
      and eq: "ord_order_id od = rv_order_id rv"
      and k: "k = to_period_M (ord_purchase_timestamp od)"
      by (auto simp add: satisfaction_data_def set_merge_inner order_month_of_def)
    from rv eq have "ord_order_id od \<in> rv_order_id ` set reviews" by simp
    with od k show "k \<in> joined_months reviews orders"
      unfolding joined_months_def by blast
  qed
  moreover have "joined_months reviews orders
      \<subseteq> order_month_of ` set (satisfaction_data reviews orders)"
  proof
    fix k assume "k \<in> joined_months reviews orders"
    then obtain od rv where od: "od \<in> set orders" and rv: "rv \<in> set reviews"
      and eq: "ord_order_id od = rv_order_id rv"
      and k: "k = to_period_M (ord_purchase_timestamp od)"
      by (auto simp add: joined_months_def)
    have "(ord_order_id od, ord_purchase_timestamp od)
        \<in> set (map (\<lambda>r. (ord_order_id r, ord_purchase_timestamp r)) orders)"
      using od by (simp add: image_iff) blast
    then have "(rv, (ord_order_id od, ord_purchase_timestamp od))
        \<in> set (satisfaction_data reviews orders)"
      using rv eq by (simp only: satisfaction_data_def set_merge_inner) simp
    then have "order_month_of (rv, (ord_order_id od, ord_purchase_timestamp od))
        \<in> order_month_of ` set (satisfaction_data reviews orders)"
      by (rule imageI)
    then show "k \<in> order_month_of ` set (satisfaction_data reviews orders)"
      by (simp add: order_month_of_def k)
  qed
  ultimately show ?thesis by blast
qed

lemma map_order_month_satisfaction_by_period:
  "map order_month (satisfaction_by_period reviews orders) =
     sorted_list_of_set (joined_months reviews orders)"
proof -
  have "map order_month (satisfaction_by_period reviews orders) =
      group_keys order_month_of (satisfaction_data reviews orders)"
    by (simp add: satisfaction_by_period_def agg_mean_count_def groupby_def comp_def)
  then show ?thesis
    by (simp add: group_keys_eq_sorted_list order_month_of_satisfaction_data)
qed

lemma map_order_month_satisfaction_over_time:
  "map order_month (satisfaction_over_time reviews orders) =
     map period_str (map order_month (satisfaction_by_period reviews orders))"
  by (simp add: satisfaction_over_time_def comp_def)

lemma finite_joined_months: "finite (joined_months reviews orders)"
  by (simp add: joined_months_def)

lemma joined_months_range:
  assumes "\<forall>r \<in> set orders. valid_timestamp (ord_purchase_timestamp r)"
    and "k \<in> joined_months reviews orders"
  shows "- 3516 \<le> k \<and> k \<le> 3515"
  using assms to_period_M_range by (auto simp add: joined_months_def)

lemma score_sum_bounds:
  assumes "\<forall>x \<in> set g. 1 \<le> f x \<and> f x \<le> (5::nat)"
  shows "length g \<le> sum_list (map f g) \<and> sum_list (map f g) \<le> 5 * length g"
  using assms by (induction g) fastforce+

lemma mean_bounds:
  assumes "g \<noteq> []" and "\<forall>x \<in> set g. 1 \<le> f x \<and> f x \<le> (5::nat)"
  shows "1 \<le> (of_nat (sum_list (map f g)) :: rat) / of_nat (length g)
       \<and> (of_nat (sum_list (map f g)) :: rat) / of_nat (length g) \<le> 5"
proof -
  have pos: "(0::rat) < of_nat (length g)" using assms(1) by simp
  from score_sum_bounds [OF assms(2)]
  have lo: "length g \<le> sum_list (map f g)" and hi: "sum_list (map f g) \<le> 5 * length g"
    by simp_all
  from lo have "(of_nat (length g) :: rat) \<le> of_nat (sum_list (map f g))"
    by (simp only: of_nat_le_iff)
  then have a: "1 \<le> (of_nat (sum_list (map f g)) :: rat) / of_nat (length g)"
    using pos by (simp add: pos_le_divide_eq)
  from hi have "(of_nat (sum_list (map f g)) :: rat) \<le> of_nat (5 * length g)"
    by (simp only: of_nat_le_iff)
  then have b: "(of_nat (sum_list (map f g)) :: rat) / of_nat (length g) \<le> 5"
    using pos by (simp add: pos_divide_le_eq)
  from a b show ?thesis by simp
qed

lemma satisfaction_by_period_mean:
  assumes "\<forall>r \<in> set reviews. 1 \<le> rv_review_score r \<and> rv_review_score r \<le> 5"
    and "row \<in> set (satisfaction_by_period reviews orders)"
  shows "1 \<le> review_mean row \<and> review_mean row \<le> 5"
proof -
  from assms(2) obtain k g where
    kg: "(k, g) \<in> set (groupby order_month_of (satisfaction_data reviews orders))"
    and row: "review_mean row =
      of_nat (sum_list (map (\<lambda>j. rv_review_score (fst j)) g)) / of_nat (length g)"
    by (auto simp add: satisfaction_by_period_def agg_mean_count_def)
  from groupby_member [OF kg] have g: "g \<noteq> []"
    and sub: "set g \<subseteq> set (satisfaction_data reviews orders)"
    by auto
  have "\<forall>j \<in> set g. 1 \<le> rv_review_score (fst j) \<and> rv_review_score (fst j) \<le> 5"
  proof
    fix j assume "j \<in> set g"
    with sub have "j \<in> set (satisfaction_data reviews orders)" by blast
    then have "fst j \<in> set reviews"
      by (auto simp add: satisfaction_data_def set_merge_inner)
    with assms(1) show "1 \<le> rv_review_score (fst j) \<and> rv_review_score (fst j) \<le> 5"
      by blast
  qed
  from mean_bounds [OF g this] show ?thesis
    by (simp only: row)
qed

lemma satisfaction_over_time_mean:
  assumes "\<forall>r \<in> set reviews. 1 \<le> rv_review_score r \<and> rv_review_score r \<le> 5"
    and "row \<in> set (satisfaction_over_time reviews orders)"
  shows "1 \<le> review_mean row \<and> review_mean row \<le> 5"
proof -
  from assms(2) obtain r where r: "r \<in> set (satisfaction_by_period reviews orders)"
    and "review_mean row = review_mean r"
    by (auto simp add: satisfaction_over_time_def)
  with satisfaction_by_period_mean [OF assms(1) r] show ?thesis by simp
qed

lemma labels_strictly_sorted:
  assumes "\<forall>r \<in> set orders. valid_timestamp (ord_purchase_timestamp r)"
  shows "sorted_wrt (<) (map period_str (sorted_list_of_set (joined_months reviews orders)))"
proof -
  let ?ks = "sorted_list_of_set (joined_months reviews orders)"
  have ks: "sorted_wrt (<) ?ks"
    by simp
  have "sorted_wrt (\<lambda>p q. period_str p < period_str q) ?ks"
  proof (rule sorted_wrt_mono_rel [OF _ ks])
    fix p q assume "p \<in> set ?ks" "q \<in> set ?ks" "p < q"
    then have "p \<in> joined_months reviews orders" "q \<in> joined_months reviews orders"
      by (simp_all add: finite_joined_months)
    then have "- 3516 \<le> p" "q \<le> 3515"
      using joined_months_range [OF assms] by blast+
    then show "period_str p < period_str q"
      using \<open>p < q\<close> by (intro period_str_less) simp_all
  qed
  then show ?thesis by (simp only: sorted_wrt_map)
qed

subsection \<open>Joins on a unique key\<close>






subsection \<open>Report rows against their source frames\<close>







subsection \<open>The whole function and its reports\<close>





lemma prepare_dashboard_data_no_qualified_lead:
  assumes "ql_mql_id (qualified_leads_clean inp) = []"
  shows "\<exists>e. prepare_dashboard_data inp = Inl e"
  using assms
  by (simp add: prepare_dashboard_data_def lead_metrics_eval_value
      lead_conversion_by_segment_def segment_rows_no_lead)

subsection \<open>The seller report under any sorting kernel\<close>

lemma sorts_descending_stable: "sorts_descending (sort_values_desc total_revenue)"
  by (simp add: sorts_descending_def mset_sort_values_desc sorted_sort_values_desc)

lemma revenue_by_seller_stable_kernel:
  "revenue_by_seller items = revenue_by_seller_with (sort_values_desc total_revenue) items"
  by (simp add: revenue_by_seller_def revenue_by_seller_with_def)

lemma kernel_cut:
  assumes "sorts_descending srt"
  shows "\<forall>kept \<in> set (take n (srt rows)). \<forall>dropped \<in> set rows - set (take n (srt rows)).
           total_revenue dropped \<le> total_revenue kept"
proof (intro ballI)
  fix kept dropped
  assume kept: "kept \<in> set (take n (srt rows))"
    and dropped: "dropped \<in> set rows - set (take n (srt rows))"
  let ?S = "srt rows"
  from assms have m: "mset ?S = mset rows"
    and srt: "sorted_wrt (\<lambda>a b. total_revenue b \<le> total_revenue a) ?S"
    by (simp_all add: sorts_descending_def)
  from m have "set ?S = set rows" by (rule mset_eq_setD)
  moreover have "set ?S = set (take n ?S) \<union> set (drop n ?S)"
    by (metis append_take_drop_id set_append)
  ultimately have d: "dropped \<in> set (drop n ?S)" using dropped by blast
  from srt have "sorted_wrt (\<lambda>a b. total_revenue b \<le> total_revenue a) (take n ?S @ drop n ?S)"
    by simp
  then have "\<forall>x \<in> set (take n ?S). \<forall>y \<in> set (drop n ?S). total_revenue y \<le> total_revenue x"
    by (simp only: sorted_wrt_append) blast
  with kept d show "total_revenue dropped \<le> total_revenue kept" by blast
qed

lemma kernel_take_submset:
  assumes "sorts_descending srt"
  shows "mset (take n (srt rows)) \<subseteq># mset rows"
proof -
  have "mset (take n (srt rows)) \<subseteq># mset (take n (srt rows) @ drop n (srt rows))"
    by (simp only: mset_append mset_subset_eq_add_left)
  then have "mset (take n (srt rows)) \<subseteq># mset (srt rows)" by simp
  with assms show ?thesis by (simp add: sorts_descending_def)
qed

lemma seller_totals_keys:
  "sorted_wrt (<) (map group_key (seller_totals items))
   \<and> set (map group_key (seller_totals items)) = oi_seller_id ` set items"
  by (simp only: seller_totals_def map_group_key_agg_revenue strict_sorted_group_keys
      set_group_keys simp_thms)

lemma take_all_but_last:
  assumes "distinct S" and "length S = Suc n"
  shows "set (take n S) = set S - {S ! n}"
proof -
  have a: "take (Suc n) S = take n S @ [S ! n]"
    by (rule take_Suc_conv_app_nth) (simp add: assms(2))
  have b: "take (Suc n) S = S"
    using assms(2) by simp
  from b [symmetric] a have S: "S = take n S @ [S ! n]" by (rule trans)
  with assms(1) have "distinct (take n S @ [S ! n])" by simp
  then have "S ! n \<notin> set (take n S)" by simp
  moreover from S have "set S = set (take n S) \<union> {S ! n}"
    by (metis set_append list.set(1) list.set(2))
  ultimately show ?thesis by blast
qed

lemma tied_sellers_totals:
  "seller_totals tied_sellers_example =
     map (\<lambda>s. \<lparr>group_key = s, total_revenue = 10, order_count = 1\<rparr>)
       [''a'', ''b'', ''c'', ''d'', ''e'', ''f'', ''g'', ''h'', ''i'', ''j'', ''k'',
        ''l'', ''m'', ''n'', ''o'', ''p'', ''q'', ''r'', ''s'', ''t'', ''u'']"
  by (simp add: tied_sellers_example_def upt_rec seller_totals_def agg_revenue_def
      groupby_def group_keys_def)

lemma tied_sellers_totals_rev:
  "seller_totals (rev tied_sellers_example) = seller_totals tied_sellers_example"
proof -
  have "mset (rev tied_sellers_example) = mset tied_sellers_example"
    by simp
  then show ?thesis
    unfolding seller_totals_def by (rule agg_revenue_groupby_mset_cong)
qed

lemma dropped_is_latest:
  assumes "ties_follow_input_order report items"
    and "x \<in> set (seller_totals items)" and "x \<notin> set report"
    and "b \<in> set (seller_totals items)" and "b \<in> set report"
    and "total_revenue x = total_revenue b"
  shows "\<not> first_occurrence (group_key x) items < first_occurrence (group_key b) items"
  using assms unfolding ties_follow_input_order_def by blast

lemma no_order_for_two_frames:
  assumes perm: "mset S = mset T" and dist: "distinct T" and len: "length T = Suc n"
    and rt: "rt \<in> set T" and ru: "ru \<in> set T" and ne: "rt \<noteq> ru"
    and tied: "\<forall>a \<in> set T. \<forall>b \<in> set T. total_revenue a = total_revenue b"
    and occ1: "\<forall>a \<in> set T. a \<noteq> rt \<longrightarrow>
        first_occurrence (group_key a) items1 < first_occurrence (group_key rt) items1"
    and occ2: "\<forall>a \<in> set T. a \<noteq> ru \<longrightarrow>
        first_occurrence (group_key a) items2 < first_occurrence (group_key ru) items2"
    and T1: "seller_totals items1 = T" and T2: "seller_totals items2 = T"
    and p1: "ties_follow_input_order (take n S) items1"
    and p2: "ties_follow_input_order (take n S) items2"
  shows False
proof -
  from perm have setS: "set S = set T" by (rule mset_eq_setD)
  from perm have "length S = length T" by (rule mset_eq_length)
  with len have lenS: "length S = Suc n" by simp
  from perm have "distinct S = distinct T" by (rule mset_eq_imp_distinct_iff)
  with dist have distS: "distinct S" by simp
  have R: "set (take n S) = set S - {S ! n}"
    by (rule take_all_but_last [OF distS lenS])
  have "n < length S" using lenS by simp
  then have "S ! n \<in> set S" by (rule nth_mem)
  then have x: "S ! n \<in> set T" by (simp only: setS)
  have xR: "S ! n \<notin> set (take n S)" by (simp only: R) simp
  have is_t: "S ! n = rt"
  proof (rule ccontr)
    assume d: "S ! n \<noteq> rt"
    then have b: "rt \<in> set (take n S)" using rt by (simp add: R setS)
    from tied x rt have eq: "total_revenue (S ! n) = total_revenue rt" by blast
    from occ1 x d have "first_occurrence (group_key (S ! n)) items1
        < first_occurrence (group_key rt) items1" by blast
    moreover have "\<not> first_occurrence (group_key (S ! n)) items1
        < first_occurrence (group_key rt) items1"
      by (rule dropped_is_latest [OF p1 _ xR _ b eq]) (simp_all only: T1 x rt)
    ultimately show False by contradiction
  qed
  have is_u: "S ! n = ru"
  proof (rule ccontr)
    assume d: "S ! n \<noteq> ru"
    then have b: "ru \<in> set (take n S)" using ru by (simp add: R setS)
    from tied x ru have eq: "total_revenue (S ! n) = total_revenue ru" by blast
    from occ2 x d have "first_occurrence (group_key (S ! n)) items2
        < first_occurrence (group_key ru) items2" by blast
    moreover have "\<not> first_occurrence (group_key (S ! n)) items2
        < first_occurrence (group_key ru) items2"
      by (rule dropped_is_latest [OF p2 _ xR _ b eq]) (simp_all only: T2 x ru)
    ultimately show False by contradiction
  qed
  from is_t is_u ne show False by simp
qed

section \<open>The claims\<close>

text \<open>
  C8. DeliveryMetrics is a projection of the orders frame: it has one row per order, in the
  order of the frame, and the row of an order carries that order's \<^verbatim>\<open>delivery_delay\<close>
  (not clipped to any range: the delay of 45 days early of \<open>orders_example\<close> comes out as
  it is) and its \<^verbatim>\<open>delay_status\<close> label, both unchanged.
\<close>

theorem delivery_metrics_passthrough:
  "length (delivery_metrics orders) = length orders
   \<and> map delivery_delay (delivery_metrics orders) = map ord_delivery_delay orders
   \<and> map delay_status (delivery_metrics orders) = map ord_delay_status orders
   \<and> map delivery_delay (delivery_metrics orders_example) = [4, - 45, 0, 2]"
  by (simp add: delivery_metrics_def comp_def orders_example_def)

text \<open>
  C4. RevenueByCategory, RevenueByRegion and RevenueBySeller are sorted descending by
  \<^verbatim>\<open>total_revenue\<close>; RevenueBySeller has at most 20 rows; and for the two order items
  (order 1, price 10, seller A) and (order 2, price 20, seller A), whatever their products,
  RevenueBySeller contains the row (A, 30, 2).
\<close>

theorem revenue_reports_sorted_top20:
  "sorted_wrt (\<lambda>a b. total_revenue b \<le> total_revenue a)
     (revenue_by_category items products translations)
   \<and> sorted_wrt (\<lambda>a b. total_revenue b \<le> total_revenue a)
       (revenue_by_region items orders customers)
   \<and> sorted_wrt (\<lambda>a b. total_revenue b \<le> total_revenue a) (revenue_by_seller items)
   \<and> length (revenue_by_seller items) \<le> 20
   \<and> \<lparr>group_key = ''A'', total_revenue = 30, order_count = 2\<rparr>
       \<in> set (revenue_by_seller
                [\<lparr>oi_order_id = 1, oi_product_id = p1, oi_seller_id = ''A'', oi_price = 10\<rparr>,
                 \<lparr>oi_order_id = 2, oi_product_id = p2, oi_seller_id = ''A'', oi_price = 20\<rparr>])"
proof -
  have cat: "sorted_wrt (\<lambda>a b. total_revenue b \<le> total_revenue a)
      (revenue_by_category items products translations)"
    unfolding revenue_by_category_def by (rule sorted_sort_values_desc)
  have reg: "sorted_wrt (\<lambda>a b. total_revenue b \<le> total_revenue a)
      (revenue_by_region items orders customers)"
    unfolding revenue_by_region_def by (rule sorted_sort_values_desc)
  have sel: "sorted_wrt (\<lambda>a b. total_revenue b \<le> total_revenue a) (revenue_by_seller items)"
    unfolding revenue_by_seller_def by (rule sorted_wrt_head) (rule sorted_sort_values_desc)
  have len: "length (revenue_by_seller items) \<le> 20"
    unfolding revenue_by_seller_def by (rule length_head)
  have ex: "revenue_by_seller
      [\<lparr>oi_order_id = 1, oi_product_id = p1, oi_seller_id = ''A'', oi_price = 10\<rparr>,
       \<lparr>oi_order_id = 2, oi_product_id = p2, oi_seller_id = ''A'', oi_price = 20\<rparr>]
      = [\<lparr>group_key = ''A'', total_revenue = 30, order_count = 2\<rparr>]"
    by (simp add: revenue_by_seller_def head_def sort_values_desc_def seller_totals_def
        agg_revenue_def groupby_def group_keys_def)
  from cat reg sel len ex show ?thesis by simp
qed

text \<open>
  C1, as the code has it. \<^verbatim>\<open>order_count=('order_id', 'count')\<close> counts rows: each row of
  RevenueByCategory reports as \<^verbatim>\<open>order_count\<close> the number of rows of the joined frame
  (order items joined to their product and its translation) that carry its English
  category name, and as \<^verbatim>\<open>total_revenue\<close> the sum of their prices. There is exactly one
  row for each English category name of the joined frame, and the rows are sorted descending
  by \<^verbatim>\<open>total_revenue\<close>.
\<close>

theorem revenue_by_category_counts_item_rows:
  "(\<forall>r \<in> set (revenue_by_category items products translations).
      order_count r =
        length (filter (\<lambda>j. tr_category_name_english (snd j) = group_key r)
                  (category_join items products translations))
      \<and> total_revenue r =
        sum_list (map (\<lambda>j. oi_price (fst (fst j)))
                    (filter (\<lambda>j. tr_category_name_english (snd j) = group_key r)
                       (category_join items products translations))))
   \<and> set (map group_key (revenue_by_category items products translations)) =
       (\<lambda>j. tr_category_name_english (snd j)) ` set (category_join items products translations)
   \<and> distinct (map group_key (revenue_by_category items products translations))
   \<and> sorted_wrt (\<lambda>a b. total_revenue b \<le> total_revenue a)
       (revenue_by_category items products translations)"
proof -
  let ?J = "category_join items products translations"
  let ?key = "\<lambda>j. tr_category_name_english (snd j)"
  let ?agg = "agg_revenue (\<lambda>j. oi_price (fst (fst j))) (groupby ?key ?J)"
  have rows: "set (revenue_by_category items products translations) = set ?agg"
    by (simp add: revenue_by_category_def set_sort_values_desc)
  have each: "\<forall>r \<in> set (revenue_by_category items products translations).
      order_count r = length (filter (\<lambda>j. ?key j = group_key r) ?J)
      \<and> total_revenue r =
        sum_list (map (\<lambda>j. oi_price (fst (fst j))) (filter (\<lambda>j. ?key j = group_key r) ?J))"
    unfolding rows using revenue_row_of_group [of _ "\<lambda>j. oi_price (fst (fst j))" ?key ?J]
    by blast
  have keys: "set (map group_key (revenue_by_category items products translations)) =
      ?key ` set ?J"
    unfolding set_map rows
    by (simp add: map_group_key_agg_revenue set_group_keys flip: set_map)
  have dist: "distinct (map group_key (revenue_by_category items products translations))"
    by (simp add: revenue_by_category_def distinct_map_sort_values_desc
        map_group_key_agg_revenue distinct_group_keys)
  have srt: "sorted_wrt (\<lambda>a b. total_revenue b \<le> total_revenue a)
      (revenue_by_category items products translations)"
    unfolding revenue_by_category_def by (rule sorted_sort_values_desc)
  from each keys dist srt show ?thesis by blast
qed

text \<open>
  The theorem at two items of one order and one product: the category row counts 2.
\<close>

theorem revenue_by_category_counts_item_rows_witness:
  "\<lparr>group_key = ''toys'', total_revenue = 30, order_count = 2\<rparr>
     \<in> set (revenue_by_category
          [\<lparr>oi_order_id = 1, oi_product_id = ''p'', oi_seller_id = ''s'', oi_price = 10\<rparr>,
           \<lparr>oi_order_id = 1, oi_product_id = ''p'', oi_seller_id = ''s'', oi_price = 20\<rparr>]
          [\<lparr>prod_product_id = ''p'', prod_category_name = ''brinquedos''\<rparr>]
          [\<lparr>tr_category_name = ''brinquedos'', tr_category_name_english = ''toys''\<rparr>])
   \<and> length (filter (\<lambda>j. tr_category_name_english (snd j) = ''toys'')
        (category_join
          [\<lparr>oi_order_id = 1, oi_product_id = ''p'', oi_seller_id = ''s'', oi_price = 10\<rparr>,
           \<lparr>oi_order_id = 1, oi_product_id = ''p'', oi_seller_id = ''s'', oi_price = 20\<rparr>]
          [\<lparr>prod_product_id = ''p'', prod_category_name = ''brinquedos''\<rparr>]
          [\<lparr>tr_category_name = ''brinquedos'', tr_category_name_english = ''toys''\<rparr>])) = 2"
  using revenue_by_category_counts_item_rows
    [of "[\<lparr>oi_order_id = 1, oi_product_id = ''p'', oi_seller_id = ''s'', oi_price = 10\<rparr>,
           \<lparr>oi_order_id = 1, oi_product_id = ''p'', oi_seller_id = ''s'', oi_price = 20\<rparr>]"
        "[\<lparr>prod_product_id = ''p'', prod_category_name = ''brinquedos''\<rparr>]"
        "[\<lparr>tr_category_name = ''brinquedos'', tr_category_name_english = ''toys''\<rparr>]"]
  by (simp add: revenue_by_category_def category_join_def merge_inner_def sort_values_desc_def
      agg_revenue_def groupby_def group_keys_def)

text \<open>
  C1 as stated fails: on that input the only order is order 1, so the number of distinct
  \<^verbatim>\<open>order_id\<close> values in the category is 1, and the row reports 2.
\<close>

theorem order_count_distinct_orders_counterexample:
  "\<not> (\<forall>r \<in> set (revenue_by_category
          [\<lparr>oi_order_id = 1, oi_product_id = ''p'', oi_seller_id = ''s'', oi_price = 10\<rparr>,
           \<lparr>oi_order_id = 1, oi_product_id = ''p'', oi_seller_id = ''s'', oi_price = 20\<rparr>]
          [\<lparr>prod_product_id = ''p'', prod_category_name = ''brinquedos''\<rparr>]
          [\<lparr>tr_category_name = ''brinquedos'', tr_category_name_english = ''toys''\<rparr>]).
        order_count r =
          card (set (map (\<lambda>j. oi_order_id (fst (fst j)))
            (filter (\<lambda>j. tr_category_name_english (snd j) = group_key r)
              (category_join
                [\<lparr>oi_order_id = 1, oi_product_id = ''p'', oi_seller_id = ''s'', oi_price = 10\<rparr>,
                 \<lparr>oi_order_id = 1, oi_product_id = ''p'', oi_seller_id = ''s'', oi_price = 20\<rparr>]
                [\<lparr>prod_product_id = ''p'', prod_category_name = ''brinquedos''\<rparr>]
                [\<lparr>tr_category_name = ''brinquedos'', tr_category_name_english = ''toys''\<rparr>])))))"
  by (simp add: revenue_by_category_def category_join_def merge_inner_def sort_values_desc_def
      agg_revenue_def groupby_def group_keys_def)

text \<open>
  C10. RevenueByRegion reads the order items through the projection to \<^verbatim>\<open>order_id\<close> and
  \<^verbatim>\<open>price\<close> only: two order-item frames that agree row for row on these two columns
  give the same report, whatever their \<^verbatim>\<open>product_id\<close> and \<^verbatim>\<open>seller_id\<close> columns hold.
\<close>

theorem revenue_by_region_ignores_product_and_seller:
  assumes "map oi_order_id items = map oi_order_id items'"
    and "map oi_price items = map oi_price items'"
  shows "revenue_by_region items orders customers = revenue_by_region items' orders customers"
proof -
  have "project_order_id_price items = project_order_id_price items'"
    using assms by (simp add: project_order_id_price_zip)
  then show ?thesis
    by (simp add: revenue_by_region_def region_join_def)
qed

theorem revenue_by_region_ignores_product_and_seller_witness:
  "revenue_by_region
     [\<lparr>oi_order_id = 7, oi_product_id = ''p1'', oi_seller_id = ''s1'', oi_price = 10\<rparr>]
     [\<lparr>ord_order_id = 7, ord_customer_id = ''c'',
       ord_purchase_timestamp = \<lparr>ts_year = 2017, ts_month = 3, ts_day = 9, ts_seconds = 0\<rparr>,
       ord_delivery_delay = - 2, ord_delay_status = Early\<rparr>]
     [\<lparr>cust_customer_id = ''c'', cust_customer_state = ''SP''\<rparr>]
   = revenue_by_region
     [\<lparr>oi_order_id = 7, oi_product_id = ''p2'', oi_seller_id = ''s2'', oi_price = 10\<rparr>]
     [\<lparr>ord_order_id = 7, ord_customer_id = ''c'',
       ord_purchase_timestamp = \<lparr>ts_year = 2017, ts_month = 3, ts_day = 9, ts_seconds = 0\<rparr>,
       ord_delivery_delay = - 2, ord_delay_status = Early\<rparr>]
     [\<lparr>cust_customer_id = ''c'', cust_customer_state = ''SP''\<rparr>]
   \<and> revenue_by_region
     [\<lparr>oi_order_id = 7, oi_product_id = ''p2'', oi_seller_id = ''s2'', oi_price = 10\<rparr>]
     [\<lparr>ord_order_id = 7, ord_customer_id = ''c'',
       ord_purchase_timestamp = \<lparr>ts_year = 2017, ts_month = 3, ts_day = 9, ts_seconds = 0\<rparr>,
       ord_delivery_delay = - 2, ord_delay_status = Early\<rparr>]
     [\<lparr>cust_customer_id = ''c'', cust_customer_state = ''SP''\<rparr>]
   = [\<lparr>group_key = ''SP'', total_revenue = 10, order_count = 1\<rparr>]"
proof -
  have same: "revenue_by_region
     [\<lparr>oi_order_id = 7, oi_product_id = ''p1'', oi_seller_id = ''s1'', oi_price = 10\<rparr>]
     [\<lparr>ord_order_id = 7, ord_customer_id = ''c'',
       ord_purchase_timestamp = \<lparr>ts_year = 2017, ts_month = 3, ts_day = 9, ts_seconds = 0\<rparr>,
       ord_delivery_delay = - 2, ord_delay_status = Early\<rparr>]
     [\<lparr>cust_customer_id = ''c'', cust_customer_state = ''SP''\<rparr>]
   = revenue_by_region
     [\<lparr>oi_order_id = 7, oi_product_id = ''p2'', oi_seller_id = ''s2'', oi_price = 10\<rparr>]
     [\<lparr>ord_order_id = 7, ord_customer_id = ''c'',
       ord_purchase_timestamp = \<lparr>ts_year = 2017, ts_month = 3, ts_day = 9, ts_seconds = 0\<rparr>,
       ord_delivery_delay = - 2, ord_delay_status = Early\<rparr>]
     [\<lparr>cust_customer_id = ''c'', cust_customer_state = ''SP''\<rparr>]"
    by (rule revenue_by_region_ignores_product_and_seller) simp_all
  then show ?thesis
    by (simp add: revenue_by_region_def region_join_def project_order_id_price_def
        merge_inner_def sort_values_desc_def agg_revenue_def groupby_def group_keys_def)
qed




text \<open>
  C2 at its own example, qualified leads 1 and 2 and one closed lead 1 of segment X with a
  \<^verbatim>\<open>won_date\<close>. When the qualified-leads frame has a \<^verbatim>\<open>business_segment\<close> column, as the
  specification's schema has it, line 104 raises KeyError. When only the closed-leads frame
  has it, lead 2 leaves the left join without a segment, \<^verbatim>\<open>groupby\<close> drops it, and the row
  of X reports 1 lead, 1 converted, rate 100: not 2, 1 and 50.
\<close>

theorem lead_conversion_example_evaluates:
  "lead_conversion_by_segment \<lparr>ql_other_columns = [''business_segment''], ql_mql_id = [1, 2]\<rparr>
       [\<lparr>cl_mql_id = 1, cl_business_segment = ''X'',
         cl_won_date = Some \<lparr>ts_year = 2020, ts_month = 1, ts_day = 1, ts_seconds = 0\<rparr>\<rparr>]
     = Inl (KeyError ''business_segment'')
   \<and> lead_conversion_by_segment \<lparr>ql_other_columns = [], ql_mql_id = [1, 2]\<rparr>
       [\<lparr>cl_mql_id = 1, cl_business_segment = ''X'',
         cl_won_date = Some \<lparr>ts_year = 2020, ts_month = 1, ts_day = 1, ts_seconds = 0\<rparr>\<rparr>]
     = Inr [\<lparr>business_segment = ''X'', total_leads = 1, converted_leads = 1,
             seg_conversion_rate = Num 100\<rparr>]"
  by (simp add: lead_conversion_by_segment_def segment_rows_def with_conversion_rate_def
      segment_counts_def groupby_dropna_def groupby_def group_keys_def lead_join_def
      merge_left_def joined_business_segment_def joined_won_date_def pd_truediv_def)

text \<open>
  C6, as the code has it. Whatever order the sort of line 71 gives to rows of equal revenue,
  RevenueBySeller has at most 20 rows in descending order of revenue, each of them the row
  of one seller, and no seller left out has more revenue than a seller kept: the cut is by
  revenue alone. The frame that is sorted lists the sellers in ascending \<^verbatim>\<open>seller_id\<close>
  order, whatever the order of the order items; which of the sellers tied at the 20th
  position are kept is left to the sort.
\<close>

theorem revenue_by_seller_cut_by_revenue:
  assumes "sorts_descending srt"
  shows "length (revenue_by_seller_with srt items) \<le> 20
       \<and> sorted_wrt (\<lambda>a b. total_revenue b \<le> total_revenue a) (revenue_by_seller_with srt items)
       \<and> mset (revenue_by_seller_with srt items) \<subseteq># mset (seller_totals items)
       \<and> (\<forall>kept \<in> set (revenue_by_seller_with srt items).
            \<forall>dropped \<in> set (seller_totals items) - set (revenue_by_seller_with srt items).
              total_revenue dropped \<le> total_revenue kept)
       \<and> sorted_wrt (<) (map group_key (seller_totals items))
       \<and> set (map group_key (seller_totals items)) = oi_seller_id ` set items"
proof -
  have len: "length (revenue_by_seller_with srt items) \<le> 20"
    unfolding revenue_by_seller_with_def by (rule length_head)
  from assms have "sorted_wrt (\<lambda>a b. total_revenue b \<le> total_revenue a)
      (srt (seller_totals items))"
    by (simp add: sorts_descending_def)
  then have srt: "sorted_wrt (\<lambda>a b. total_revenue b \<le> total_revenue a)
      (revenue_by_seller_with srt items)"
    unfolding revenue_by_seller_with_def by (rule sorted_wrt_head)
  have sub: "mset (revenue_by_seller_with srt items) \<subseteq># mset (seller_totals items)"
    unfolding revenue_by_seller_with_def head_def by (rule kernel_take_submset [OF assms])
  have cut: "\<forall>kept \<in> set (revenue_by_seller_with srt items).
      \<forall>dropped \<in> set (seller_totals items) - set (revenue_by_seller_with srt items).
        total_revenue dropped \<le> total_revenue kept"
    unfolding revenue_by_seller_with_def head_def by (rule kernel_cut [OF assms])
  from len srt sub cut seller_totals_keys [of items] show ?thesis by blast
qed

text \<open>The theorem at the stable sort and \<open>items_example\<close>, with its two sellers.\<close>

theorem revenue_by_seller_cut_by_revenue_witness:
  "sorts_descending (sort_values_desc total_revenue)
   \<and> revenue_by_seller_with (sort_values_desc total_revenue) items_example =
       [\<lparr>group_key = ''s2'', total_revenue = 20, order_count = 1\<rparr>,
        \<lparr>group_key = ''s1'', total_revenue = 16, order_count = 3\<rparr>]
   \<and> map group_key (seller_totals items_example) = [''s1'', ''s2'']"
proof -
  have rows: "revenue_by_seller_with (sort_values_desc total_revenue) items_example =
       [\<lparr>group_key = ''s2'', total_revenue = 20, order_count = 1\<rparr>,
        \<lparr>group_key = ''s1'', total_revenue = 16, order_count = 3\<rparr>]
   \<and> map group_key (seller_totals items_example) = [''s1'', ''s2'']"
    by (simp add: items_example_def revenue_by_seller_with_def head_def sort_values_desc_def
        seller_totals_def agg_revenue_def groupby_def group_keys_def)
  from revenue_by_seller_cut_by_revenue [OF sorts_descending_stable, of items_example] rows
    sorts_descending_stable
  show ?thesis by simp
qed

text \<open>
  C6 as stated fails, whatever the sort does with ties. In \<open>tied_sellers_example\<close> all 21
  sellers have one item of price 10, so 20 are kept and one is dropped; seller u occurs
  first in the frame and last in the reversed frame. Both frames give the sort the same
  per-seller totals, so the same seller is dropped from both, while the rule of the claim
  wants the seller that occurs last dropped: t from the one, u from the other. No sorting
  kernel follows the order of first occurrence on both frames.
\<close>

theorem tie_by_input_order_counterexample:
  "length (seller_totals tied_sellers_example) = 21
   \<and> set (map total_revenue (seller_totals tied_sellers_example)) = {10}
   \<and> seller_totals (rev tied_sellers_example) = seller_totals tied_sellers_example
   \<and> first_occurrence ''u'' tied_sellers_example = 0
   \<and> first_occurrence ''u'' (rev tied_sellers_example) = 20
   \<and> \<not> (\<exists>srt. sorts_descending srt
          \<and> ties_follow_input_order (revenue_by_seller_with srt tied_sellers_example)
                tied_sellers_example
          \<and> ties_follow_input_order (revenue_by_seller_with srt (rev tied_sellers_example))
                (rev tied_sellers_example))"
proof -
  let ?T = "seller_totals tied_sellers_example"
  let ?rt = "\<lparr>group_key = ''t'', total_revenue = 10, order_count = 1\<rparr>"
  let ?ru = "\<lparr>group_key = ''u'', total_revenue = 10, order_count = 1\<rparr>"
  have len: "length ?T = Suc 20" and dist: "distinct ?T"
    by (simp_all add: tied_sellers_totals)
  have tied: "set (map total_revenue ?T) = {10}"
    by (simp add: tied_sellers_totals)
  have all_tied: "\<forall>a \<in> set ?T. \<forall>b \<in> set ?T. total_revenue a = total_revenue b"
    unfolding tied_sellers_totals by simp
  have mem: "?rt \<in> set ?T" "?ru \<in> set ?T"
    by (simp_all add: tied_sellers_totals)
  have ne: "?rt \<noteq> ?ru" by simp
  have occ_u: "first_occurrence ''u'' tied_sellers_example = 0"
    "first_occurrence ''u'' (rev tied_sellers_example) = 20"
    by (simp_all add: first_occurrence_def tied_sellers_example_def upt_rec)
  have occ1: "\<forall>a \<in> set ?T. a \<noteq> ?rt \<longrightarrow>
      first_occurrence (group_key a) tied_sellers_example
        < first_occurrence (group_key ?rt) tied_sellers_example"
    unfolding tied_sellers_totals
    by (simp add: first_occurrence_def tied_sellers_example_def upt_rec)
  have occ2: "\<forall>a \<in> set ?T. a \<noteq> ?ru \<longrightarrow>
      first_occurrence (group_key a) (rev tied_sellers_example)
        < first_occurrence (group_key ?ru) (rev tied_sellers_example)"
    unfolding tied_sellers_totals
    by (simp add: first_occurrence_def tied_sellers_example_def upt_rec)
  have no_kernel: "\<not> (\<exists>srt. sorts_descending srt
          \<and> ties_follow_input_order (revenue_by_seller_with srt tied_sellers_example)
                tied_sellers_example
          \<and> ties_follow_input_order (revenue_by_seller_with srt (rev tied_sellers_example))
                (rev tied_sellers_example))"
  proof (rule notI, elim exE conjE)
    fix srt
    assume sd: "sorts_descending srt"
      and p1: "ties_follow_input_order (revenue_by_seller_with srt tied_sellers_example)
                tied_sellers_example"
      and p2: "ties_follow_input_order (revenue_by_seller_with srt (rev tied_sellers_example))
                (rev tied_sellers_example)"
    from sd have perm: "mset (srt ?T) = mset ?T" by (simp add: sorts_descending_def)
    from p1 have q1: "ties_follow_input_order (take 20 (srt ?T)) tied_sellers_example"
      by (simp only: revenue_by_seller_with_def head_def)
    from p2 have q2: "ties_follow_input_order (take 20 (srt ?T)) (rev tied_sellers_example)"
      by (simp only: revenue_by_seller_with_def head_def tied_sellers_totals_rev)
    show False
      by (rule no_order_for_two_frames [OF perm dist len mem ne all_tied occ1 occ2
            refl tied_sellers_totals_rev q1 q2])
  qed
  from len have len21: "length ?T = 21" by simp
  from len21 tied tied_sellers_totals_rev occ_u no_kernel show ?thesis by (intro conjI)
qed

text \<open>
  C5. SatisfactionOverTime has exactly one row for each calendar month of the joined review
  and order data, a review without a matching order contributing nothing: its month labels
  are the labels of those months in strictly increasing chronological order, so there are
  as many rows as months. For purchase timestamps that pandas can hold the labels are
  strictly increasing as strings too, and given review scores from 1 to 5 each mean score
  lies in [1,5].
\<close>

theorem satisfaction_over_time_months:
  "map order_month (satisfaction_over_time reviews orders) =
       map period_str (sorted_list_of_set (joined_months reviews orders))
   \<and> length (satisfaction_over_time reviews orders) = card (joined_months reviews orders)
   \<and> sorted_wrt (<) (sorted_list_of_set (joined_months reviews orders))
   \<and> ((\<forall>r \<in> set orders. valid_timestamp (ord_purchase_timestamp r)) \<longrightarrow>
        sorted_wrt (<) (map order_month (satisfaction_over_time reviews orders)))
   \<and> ((\<forall>r \<in> set reviews. 1 \<le> rv_review_score r \<and> rv_review_score r \<le> 5) \<longrightarrow>
        (\<forall>row \<in> set (satisfaction_over_time reviews orders).
           1 \<le> review_mean row \<and> review_mean row \<le> 5))"
proof -
  have labels: "map order_month (satisfaction_over_time reviews orders) =
      map period_str (sorted_list_of_set (joined_months reviews orders))"
    by (simp only: map_order_month_satisfaction_over_time
        map_order_month_satisfaction_by_period)
  have "length (map order_month (satisfaction_over_time reviews orders)) =
      length (sorted_list_of_set (joined_months reviews orders))"
    by (simp only: labels length_map)
  then have len: "length (satisfaction_over_time reviews orders) =
      card (joined_months reviews orders)"
    by simp
  have months: "sorted_wrt (<) (sorted_list_of_set (joined_months reviews orders))"
    by simp
  have sorted_labels: "sorted_wrt (<) (map order_month (satisfaction_over_time reviews orders))"
    if "\<forall>r \<in> set orders. valid_timestamp (ord_purchase_timestamp r)"
    unfolding labels by (rule labels_strictly_sorted [OF that])
  have means: "\<forall>row \<in> set (satisfaction_over_time reviews orders).
      1 \<le> review_mean row \<and> review_mean row \<le> 5"
    if "\<forall>r \<in> set reviews. 1 \<le> rv_review_score r \<and> rv_review_score r \<le> 5"
    using satisfaction_over_time_mean [OF that] by blast
  from labels len months sorted_labels means show ?thesis by blast
qed

text \<open>
  The theorem at \<open>reviews_example\<close> and \<open>orders_example\<close>: two months, March 2017 with
  the scores 4 and 5 and January 2018 with the score 1.
\<close>

theorem satisfaction_over_time_months_witness:
  "satisfaction_over_time reviews_example orders_example =
     [\<lparr>order_month = ''2017-03'', review_mean = 9 / 2, review_count = 2\<rparr>,
      \<lparr>order_month = ''2018-01'', review_mean = 1, review_count = 1\<rparr>]
   \<and> card (joined_months reviews_example orders_example) = 2"
proof -
  have scores: "\<forall>r \<in> set reviews_example. 1 \<le> rv_review_score r \<and> rv_review_score r \<le> 5"
    by (simp add: reviews_example_def)
  have stamps: "\<forall>r \<in> set orders_example. valid_timestamp (ord_purchase_timestamp r)"
    by (simp add: orders_example_def valid_timestamp_def)
  have rows: "satisfaction_over_time reviews_example orders_example =
     [\<lparr>order_month = ''2017-03'', review_mean = 9 / 2, review_count = 2\<rparr>,
      \<lparr>order_month = ''2018-01'', review_mean = 1, review_count = 1\<rparr>]"
    by (simp add: reviews_example_def orders_example_def satisfaction_over_time_def
        satisfaction_by_period_def agg_mean_count_def groupby_def group_keys_def
        satisfaction_data_def merge_inner_def order_month_of_def to_period_M_def
        period_str_def digit_char_def)
  from satisfaction_over_time_months [of reviews_example orders_example] scores stamps rows
  show ?thesis
    by simp
qed




end
